theory Spec2Isabelle
  imports Complex_Main
begin

section \<open>A planar two-link arm: the embedding of RoboticsProject.py\<close>

text \<open>
  The Python source computes on floats. The embedding computes on \<^typ>\<open>real\<close>: every
  arithmetic operation is exact, there is no rounding, no overflow, no NaN and no signed
  zero. What the source can raise is a branch of the model: \<open>math.sqrt\<close> and
  \<open>math.acos\<close> raise \<open>ValueError\<close> outside their domain, the division \<open>/\<close> raises
  \<open>ZeroDivisionError\<close> on a zero divisor.
\<close>

subsection \<open>The library functions the source calls\<close>

datatype error = ValueError | ZeroDivisionError

definition math_sqrt :: "real \<Rightarrow> error + real" where
  "math_sqrt v = (if v < 0 then Inl ValueError else Inr (sqrt v))"

definition math_acos :: "real \<Rightarrow> error + real" where
  "math_acos v = (if v < - 1 \<or> 1 < v then Inl ValueError else Inr (arccos v))"

definition truediv :: "real \<Rightarrow> real \<Rightarrow> error + real" where
  "truediv a b = (if b = 0 then Inl ZeroDivisionError else Inr (a / b))"

text \<open>
  \<open>math.atan2(y, x)\<close>: the angle of the point \<open>(x, y)\<close> in \<open>(-pi, pi]\<close>, and \<open>0\<close> at the
  origin.
\<close>

definition math_atan2 :: "real \<Rightarrow> real \<Rightarrow> real" where
  "math_atan2 y x =
     (if 0 < x then arctan (y / x)
      else if x < 0 then (if 0 \<le> y then arctan (y / x) + pi else arctan (y / x) - pi)
      else if 0 < y then pi / 2
      else if y < 0 then - (pi / 2)
      else 0)"

subsection \<open>inverse_kinematics (lines 18 to 48)\<close>

text \<open>
  The result is \<open>Inl e\<close> when the call raises \<open>e\<close>, \<open>Inr None\<close> when it returns
  \<open>None\<close>, and \<open>Inr (Some (elbow_x, elbow_y))\<close> when it returns the elbow.
\<close>

definition inverse_kinematics ::
    "real \<Rightarrow> real \<Rightarrow> real \<Rightarrow> real \<Rightarrow> bool \<Rightarrow> error + (real \<times> real) option" where
  "inverse_kinematics x y l1 l2 left_mode =
     (case math_sqrt (x\<^sup>2 + y\<^sup>2) of
        Inl e \<Rightarrow> Inl e
      | Inr distance \<Rightarrow>
          if distance > l1 + l2 \<or> distance < \<bar>l1 - l2\<bar> \<or> distance = 0 then Inr None
          else
            (case truediv (l1\<^sup>2 + distance\<^sup>2 - l2\<^sup>2) (2 * l1 * distance) of
               Inl e \<Rightarrow> Inl e
             | Inr cos_angle \<Rightarrow>
                 (case math_acos (max (- 1) (min 1 cos_angle)) of
                    Inl e \<Rightarrow> Inl e
                  | Inr alpha \<Rightarrow>
                      (let theta = math_atan2 y x;
                           q1 = (if left_mode then theta + alpha else theta - alpha);
                           elbow_x = l1 * cos q1;
                           elbow_y = l1 * sin q1
                       in Inr (Some (elbow_x, elbow_y))))))"

text \<open>
  The values of the locals \<open>dist\<close> (written \<open>distance\<close> above), \<open>cos_angle\<close>
  (after the clamp of line 34), \<open>alpha\<close> and \<open>theta\<close> of \<open>inverse_kinematics\<close>, named so
  that statements can speak of them.
\<close>

definition ik_dist :: "real \<Rightarrow> real \<Rightarrow> real" where
  "ik_dist x y = sqrt (x\<^sup>2 + y\<^sup>2)"

definition ik_cos_angle :: "real \<Rightarrow> real \<Rightarrow> real \<Rightarrow> real \<Rightarrow> real" where
  "ik_cos_angle x y l1 l2 =
     max (- 1) (min 1 ((l1\<^sup>2 + (ik_dist x y)\<^sup>2 - l2\<^sup>2) / (2 * l1 * ik_dist x y)))"

definition ik_alpha :: "real \<Rightarrow> real \<Rightarrow> real \<Rightarrow> real \<Rightarrow> real" where
  "ik_alpha x y l1 l2 = arccos (ik_cos_angle x y l1 l2)"

definition ik_theta :: "real \<Rightarrow> real \<Rightarrow> real" where
  "ik_theta x y = math_atan2 y x"

text \<open>The test of line 26: the target is rejected.\<close>

definition out_of_range :: "real \<Rightarrow> real \<Rightarrow> real \<Rightarrow> real \<Rightarrow> bool" where
  "out_of_range x y l1 l2 =
     (ik_dist x y > l1 + l2 \<or> ik_dist x y < \<bar>l1 - l2\<bar> \<or> ik_dist x y = 0)"

subsection \<open>check_path (lines 50 to 65)\<close>

text \<open>
  The \<open>for\<close> loop over \<open>range(steps + 1)\<close> is a recursion over the list of indices; the
  \<open>return False\<close> inside the loop ends it early.
\<close>

fun check_path_loop ::
    "real \<Rightarrow> real \<Rightarrow> real \<Rightarrow> real \<Rightarrow> real \<Rightarrow> nat \<Rightarrow> nat list \<Rightarrow> error + bool" where
  "check_path_loop x1 y1 x2 y2 min_r steps [] = Inr True"
| "check_path_loop x1 y1 x2 y2 min_r steps (i # rest) =
     (case truediv (real i) (real steps) of
        Inl e \<Rightarrow> Inl e
      | Inr t \<Rightarrow>
          (let px = x1 + (x2 - x1) * t;
               py = y1 + (y2 - y1) * t
           in case math_sqrt (px\<^sup>2 + py\<^sup>2) of
                Inl e \<Rightarrow> Inl e
              | Inr d \<Rightarrow>
                  if d < min_r - 1 then Inr False
                  else check_path_loop x1 y1 x2 y2 min_r steps rest))"

definition check_path :: "real \<Rightarrow> real \<Rightarrow> real \<Rightarrow> real \<Rightarrow> real \<Rightarrow> real \<Rightarrow> error + bool" where
  "check_path x1 y1 x2 y2 l1 l2 =
     (let min_r = \<bar>l1 - l2\<bar>;
          steps = 40
      in check_path_loop x1 y1 x2 y2 min_r steps [0..<steps + 1])"

text \<open>The point the loop computes at index \<open>i\<close> (lines 58 to 61).\<close>

definition sample_point :: "real \<Rightarrow> real \<Rightarrow> real \<Rightarrow> real \<Rightarrow> nat \<Rightarrow> real \<times> real" where
  "sample_point x1 y1 x2 y2 i =
     (x1 + (x2 - x1) * (real i / 40), y1 + (y2 - y1) * (real i / 40))"

subsection \<open>One move request of the movement loop of main (lines 137 to 179)\<close>





section \<open>Properties\<close>

subsection \<open>The library functions\<close>

text \<open>
  The argument of \<open>math.sqrt\<close> is always a sum of two squares and the argument of
  \<open>math.acos\<close> is always clamped, so neither raises.
\<close>

lemma math_sqrt_sum_squares: "math_sqrt (a\<^sup>2 + b\<^sup>2) = Inr (sqrt (a\<^sup>2 + b\<^sup>2))"
  by (simp add: math_sqrt_def not_less)

lemma math_acos_clamp: "math_acos (max (- 1) (min 1 c)) = Inr (arccos (max (- 1) (min 1 c)))"
  by (simp add: math_acos_def not_less)

text \<open>
  \<open>math.atan2\<close> returns the polar angle: away from the origin, the point is its distance
  times the unit vector of that angle.
\<close>

lemma sqrt_one_plus_quot:
  assumes "x \<noteq> 0"
  shows "sqrt (1 + (y / x)\<^sup>2) = sqrt (x\<^sup>2 + y\<^sup>2) / \<bar>x\<bar>"
proof -
  have "1 + (y / x)\<^sup>2 = (x\<^sup>2 + y\<^sup>2) / x\<^sup>2"
    using assms by (simp add: power_divide add_divide_distrib)
  then show ?thesis
    by (simp add: real_sqrt_divide)
qed

lemma cos_arctan_quot:
  assumes "x \<noteq> 0"
  shows "cos (arctan (y / x)) = \<bar>x\<bar> / sqrt (x\<^sup>2 + y\<^sup>2)"
  using assms by (simp add: cos_arctan sqrt_one_plus_quot)

lemma sin_arctan_quot:
  assumes "x \<noteq> 0"
  shows "sin (arctan (y / x)) = (y / x) * \<bar>x\<bar> / sqrt (x\<^sup>2 + y\<^sup>2)"
  using assms by (simp add: sin_arctan sqrt_one_plus_quot)

lemma ik_dist_nonneg: "0 \<le> ik_dist x y"
  by (simp add: ik_dist_def)

lemma ik_dist_square: "(ik_dist x y)\<^sup>2 = x\<^sup>2 + y\<^sup>2"
  by (simp add: ik_dist_def)

lemma ik_dist_x_axis: "ik_dist x 0 = \<bar>x\<bar>"
  by (simp add: ik_dist_def)

lemma cos_math_atan2:
  assumes "ik_dist x y \<noteq> 0"
  shows "ik_dist x y * cos (math_atan2 y x) = x"
proof -
  have d: "sqrt (x\<^sup>2 + y\<^sup>2) \<noteq> 0" using assms by (simp add: ik_dist_def)
  consider "0 < x" | "x < 0" | "x = 0" by linarith
  then show ?thesis
  proof cases
    case 1
    then show ?thesis using d
      by (simp add: math_atan2_def ik_dist_def cos_arctan_quot)
  next
    case 2
    then show ?thesis using d
      by (simp add: math_atan2_def ik_dist_def cos_arctan_quot)
  next
    case 3
    then show ?thesis
      by (simp add: math_atan2_def ik_dist_def)
  qed
qed

lemma sin_math_atan2:
  assumes "ik_dist x y \<noteq> 0"
  shows "ik_dist x y * sin (math_atan2 y x) = y"
proof -
  have d: "sqrt (x\<^sup>2 + y\<^sup>2) \<noteq> 0" using assms by (simp add: ik_dist_def)
  consider "0 < x" | "x < 0" | "x = 0" by linarith
  then show ?thesis
  proof cases
    case 1
    then show ?thesis using d
      by (simp add: math_atan2_def ik_dist_def sin_arctan_quot)
  next
    case 2
    then show ?thesis using d
      by (simp add: math_atan2_def ik_dist_def sin_arctan_quot)
  next
    case 3
    then have "y \<noteq> 0" using assms by (auto simp: ik_dist_def)
    with 3 show ?thesis
      by (auto simp: math_atan2_def ik_dist_def)
  qed
qed

lemma scaled_unit_circle: "(l * cos q)\<^sup>2 + (l * sin q)\<^sup>2 = l\<^sup>2" for l q :: real
proof -
  have "(l * cos q)\<^sup>2 + (l * sin q)\<^sup>2 = l\<^sup>2 * ((cos q)\<^sup>2 + (sin q)\<^sup>2)"
    by (simp only: power_mult_distrib distrib_left)
  then show ?thesis by simp
qed

subsection \<open>The solver\<close>

text \<open>
  The solver in one equation: past the test of line 26 it raises only when \<open>l1 = 0\<close>
  (the divisor \<open>2 * l1 * dist\<close> of line 31), and otherwise returns the elbow at the angle
  \<open>theta + alpha\<close> or \<open>theta - alpha\<close>.
\<close>

lemma inverse_kinematics_unfold:
  "inverse_kinematics x y l1 l2 left_mode =
     (if out_of_range x y l1 l2 then Inr None
      else if l1 = 0 then Inl ZeroDivisionError
      else Inr (Some (l1 * cos (if left_mode then ik_theta x y + ik_alpha x y l1 l2
                                else ik_theta x y - ik_alpha x y l1 l2),
                      l1 * sin (if left_mode then ik_theta x y + ik_alpha x y l1 l2
                                else ik_theta x y - ik_alpha x y l1 l2))))"
  by (simp add: inverse_kinematics_def math_sqrt_sum_squares out_of_range_def ik_dist_def
      truediv_def math_acos_clamp ik_alpha_def ik_cos_angle_def ik_theta_def Let_def)


lemma reachable_lengths:
  assumes "\<not> out_of_range x y l1 l2"
  shows "0 < ik_dist x y" and "0 \<le> l1" and "0 \<le> l2"
    and "\<bar>l1 - l2\<bar> \<le> ik_dist x y" and "ik_dist x y \<le> l1 + l2"
  using assms ik_dist_nonneg [of x y] by (auto simp: out_of_range_def)

lemma ik_cos_angle_bounds: "- 1 \<le> ik_cos_angle x y l1 l2" "ik_cos_angle x y l1 l2 \<le> 1"
  by (simp_all add: ik_cos_angle_def)

lemma cos_ik_alpha: "cos (ik_alpha x y l1 l2) = ik_cos_angle x y l1 l2"
  by (simp add: ik_alpha_def ik_cos_angle_bounds)


text \<open>
  For a target in range the clamp of line 34 changes nothing: the law-of-cosines value
  already lies in \<open>[-1, 1]\<close>.
\<close>

lemma cos_angle_unclamped:
  assumes "\<not> out_of_range x y l1 l2" and "l1 \<noteq> 0"
  shows "ik_cos_angle x y l1 l2 = (l1\<^sup>2 + (ik_dist x y)\<^sup>2 - l2\<^sup>2) / (2 * l1 * ik_dist x y)"
proof -
  let ?d = "ik_dist x y"
  from reachable_lengths [OF assms(1)] assms(2)
  have d: "0 < ?d" and l1: "0 < l1" and l2: "0 \<le> l2"
    and lo: "\<bar>l1 - l2\<bar> \<le> ?d" and hi: "?d \<le> l1 + l2" by auto
  have den: "0 < 2 * l1 * ?d" using d l1 by simp
  have "(l1 - ?d)\<^sup>2 \<le> l2\<^sup>2"
  proof -
    have "\<bar>l1 - ?d\<bar> \<le> \<bar>l2\<bar>" using lo hi l2 by linarith
    then show ?thesis by (simp only: abs_le_square_iff)
  qed
  then have up: "l1\<^sup>2 + ?d\<^sup>2 - l2\<^sup>2 \<le> 2 * l1 * ?d"
    by (simp add: power2_diff)
  have "l2\<^sup>2 \<le> (l1 + ?d)\<^sup>2"
  proof -
    have "\<bar>l2\<bar> \<le> \<bar>l1 + ?d\<bar>" using lo hi l2 l1 d by linarith
    then show ?thesis by (simp only: abs_le_square_iff)
  qed
  then have low: "- (2 * l1 * ?d) \<le> l1\<^sup>2 + ?d\<^sup>2 - l2\<^sup>2"
    by (simp add: power2_sum)
  have "(l1\<^sup>2 + ?d\<^sup>2 - l2\<^sup>2) / (2 * l1 * ?d) \<le> 1"
    using up den by (simp add: pos_divide_le_eq)
  moreover have "- 1 \<le> (l1\<^sup>2 + ?d\<^sup>2 - l2\<^sup>2) / (2 * l1 * ?d)"
    using low den by (simp add: pos_le_divide_eq)
  ultimately show ?thesis
    by (simp add: ik_cos_angle_def)
qed

text \<open>
  In exact arithmetic the returned elbow is at distance \<open>l2\<close> from the target, so the
  second link, which main draws from the elbow to the target, has its length.
\<close>

lemma target_dot_direction:
  assumes "ik_dist x y \<noteq> 0"
  shows "x * cos q + y * sin q = ik_dist x y * cos (ik_theta x y - q)"
proof -
  have "ik_dist x y * cos (ik_theta x y - q) =
        (ik_dist x y * cos (math_atan2 y x)) * cos q + (ik_dist x y * sin (math_atan2 y x)) * sin q"
    by (simp add: ik_theta_def cos_diff algebra_simps)
  then show ?thesis
    by (simp add: cos_math_atan2 [OF assms] sin_math_atan2 [OF assms])
qed

lemma second_link_length:
  assumes "inverse_kinematics x y l1 l2 left_mode = Inr (Some (elbow_x, elbow_y))"
  shows "(x - elbow_x)\<^sup>2 + (y - elbow_y)\<^sup>2 = l2\<^sup>2"
proof -
  let ?d = "ik_dist x y"
  let ?a = "ik_alpha x y l1 l2"
  define q1 where "q1 = (if left_mode then ik_theta x y + ?a else ik_theta x y - ?a)"
  from assms have reach: "\<not> out_of_range x y l1 l2" and l1: "l1 \<noteq> 0"
    and ex: "elbow_x = l1 * cos q1" and ey: "elbow_y = l1 * sin q1"
    by (auto simp: inverse_kinematics_unfold q1_def split: if_splits)
  have d: "?d \<noteq> 0" using reachable_lengths(1) [OF reach] by simp
  have "cos (ik_theta x y - q1) = cos ?a"
    by (simp add: q1_def)
  then have dot: "x * cos q1 + y * sin q1 = ?d * cos ?a"
    using target_dot_direction [OF d, of q1] by simp
  have "2 * l1 * (?d * cos ?a) = l1\<^sup>2 + ?d\<^sup>2 - l2\<^sup>2"
    using d l1 by (simp add: cos_ik_alpha cos_angle_unclamped [OF reach l1])
  then have law: "2 * l1 * (x * cos q1 + y * sin q1) = l1\<^sup>2 + (x\<^sup>2 + y\<^sup>2) - l2\<^sup>2"
    by (simp only: dot ik_dist_square)
  have "(x - elbow_x)\<^sup>2 + (y - elbow_y)\<^sup>2 =
        (x\<^sup>2 + y\<^sup>2) + ((l1 * cos q1)\<^sup>2 + (l1 * sin q1)\<^sup>2) - 2 * l1 * (x * cos q1 + y * sin q1)"
    by (simp add: ex ey power2_diff algebra_simps)
  also have "\<dots> = (x\<^sup>2 + y\<^sup>2) + l1\<^sup>2 - 2 * l1 * (x * cos q1 + y * sin q1)"
    by (simp only: scaled_unit_circle)
  also have "\<dots> = l2\<^sup>2"
    by (simp only: law)
  finally show ?thesis .
qed




subsection \<open>The path validator\<close>

text \<open>
  The loop returns \<open>True\<close> exactly when no index of its list gives a point closer to the
  origin than \<open>min_r - 1\<close>; it never raises.
\<close>

lemma check_path_loop_all:
  "check_path_loop x1 y1 x2 y2 min_r 40 is =
     Inr (\<forall>i\<in>set is. \<not> sqrt ((fst (sample_point x1 y1 x2 y2 i))\<^sup>2
                                + (snd (sample_point x1 y1 x2 y2 i))\<^sup>2) < min_r - 1)"
  by (induction "is") (auto simp: truediv_def math_sqrt_sum_squares sample_point_def Let_def)

lemma check_path_all:
  "check_path x1 y1 x2 y2 l1 l2 =
     Inr (\<forall>i\<in>{0..40}. \<bar>l1 - l2\<bar> - 1 \<le> sqrt ((fst (sample_point x1 y1 x2 y2 i))\<^sup>2
                                + (snd (sample_point x1 y1 x2 y2 i))\<^sup>2))"
  by (auto simp: check_path_def Let_def check_path_loop_all not_less)

lemma check_path_small_min_r:
  assumes "\<bar>l1 - l2\<bar> \<le> 1"
  shows "check_path x1 y1 x2 y2 l1 l2 = Inr True"
proof -
  have "\<bar>l1 - l2\<bar> - 1 \<le> sqrt (a\<^sup>2 + b\<^sup>2)" for a b :: real
  proof -
    have "0 \<le> sqrt (a\<^sup>2 + b\<^sup>2)" by simp
    with assms show ?thesis by linarith
  qed
  then show ?thesis
    by (simp add: check_path_all)
qed


subsection \<open>The movement loop\<close>


section \<open>The claims\<close>










text \<open>
  C5, as stated: with \<open>l1 = l2 = 100\<close> the validator rejects the move from \<open>(150, 0)\<close> to
  \<open>(-150, 0)\<close>. Here \<open>min_r = 0\<close>, the threshold of line 63 is \<open>-1\<close>, and no distance is
  below it.
\<close>

theorem through_origin_counterexample:
  "\<bar>100 - 100\<bar> = (0::real) \<and> check_path 150 0 (- 150) 0 100 100 \<noteq> Inr False"
  by (simp add: check_path_small_min_r)

text \<open>
  C5, amended: with \<open>l1 = l2 = 100\<close> the validator accepts the move from \<open>(150, 0)\<close> to
  \<open>(-150, 0)\<close>, although the sampled point at \<open>i = 20\<close> is the origin.
\<close>

theorem through_origin_clear:
  "sample_point 150 0 (- 150) 0 20 = (0, 0) \<and> check_path 150 0 (- 150) 0 100 100 = Inr True"
  by (simp add: check_path_small_min_r sample_point_def)






text \<open>
  C9. For positive lengths and a point the solver accepts, the validator accepts the move
  from the point to itself.
\<close>

theorem zero_length_move_clear:
  assumes "0 < l1" and "0 < l2" and "\<not> out_of_range x y l1 l2"
  shows "check_path x y x y l1 l2 = Inr True"
proof -
  from assms(3) have "\<bar>l1 - l2\<bar> \<le> sqrt (x\<^sup>2 + y\<^sup>2)"
    by (simp add: out_of_range_def ik_dist_def)
  then have "\<bar>l1 - l2\<bar> - 1 \<le> sqrt (x\<^sup>2 + y\<^sup>2)" by linarith
  then show ?thesis
    by (simp add: check_path_all sample_point_def)
qed

theorem zero_length_move_clear_witness:
  "(0::real) < 2 \<and> (0::real) < 1 \<and> \<not> out_of_range 3 0 2 1 \<and> check_path 3 0 3 0 2 1 = Inr True"
  using zero_length_move_clear [of 2 1 3 0]
  by (simp add: out_of_range_def ik_dist_x_axis)



end
